theory Spec2Isabelle
  imports Main "HOL-Library.AList"
begin

section \<open>Runtime values\<close>

text \<open>
  \<^verbatim>\<open>isApiError\<close> takes an \<^verbatim>\<open>unknown\<close>, so the model needs the untyped values the guard
  inspects. The universe is data: what \<^verbatim>\<open>JSON.parse\<close> yields, plus \<^verbatim>\<open>undefined\<close>.
  An object is the list of its own properties in the order of an object literal, a later
  binding of a key overriding an earlier one. Numbers are the integral ones; the code
  only tests a number for truthiness and for its \<^verbatim>\<open>typeof\<close>. Every property of a data
  value is an own, enumerable data property; none of the names the code reads
  (\<^verbatim>\<open>code\<close>, \<^verbatim>\<open>message\<close>, \<^verbatim>\<open>details\<close>, \<^verbatim>\<open>fieldErrors\<close>, \<^verbatim>\<open>correlationId\<close>, \<^verbatim>\<open>field\<close>) is
  defined on the prototype of a plain object, an array or a primitive. Objects with
  accessor properties, properties that are not enumerable and inherited properties are
  the runtime values of a later section, where the guard and the builder are modelled
  again and shown to agree with the ones here on every data value.
\<close>

datatype jsval =
    JUndefined
  | JNull
  | JBool bool
  | JNum int
  | JStr string
  | JArr "jsval list"
  | JObj "(string \<times> jsval) list"

text \<open>
  What an expression can throw: the TypeError the engine raises on a read of \<^verbatim>\<open>undefined\<close>
  or \<^verbatim>\<open>null\<close> and on a call of something that is not a function, and an exception
  raised by the body of an accessor.
\<close>

datatype error = TypeError | Thrown string

text \<open>The \<^verbatim>\<open>typeof\<close> operator; \<^verbatim>\<open>typeof null\<close> and \<^verbatim>\<open>typeof []\<close> are both \<^verbatim>\<open>'object'\<close>.\<close>

fun typeof :: "jsval \<Rightarrow> string" where
  "typeof JUndefined = ''undefined''"
| "typeof JNull = ''object''"
| "typeof (JBool b) = ''boolean''"
| "typeof (JNum n) = ''number''"
| "typeof (JStr s) = ''string''"
| "typeof (JArr xs) = ''object''"
| "typeof (JObj ps) = ''object''"

text \<open>ToBoolean, as applied by \<^verbatim>\<open>!\<close>, \<^verbatim>\<open>&&\<close> and \<^verbatim>\<open>every\<close>.\<close>

fun truthy :: "jsval \<Rightarrow> bool" where
  "truthy JUndefined = False"
| "truthy JNull = False"
| "truthy (JBool b) = b"
| "truthy (JNum n) = (n \<noteq> 0)"
| "truthy (JStr s) = (s \<noteq> [])"
| "truthy (JArr xs) = True"
| "truthy (JObj ps) = True"

fun isArray :: "jsval \<Rightarrow> bool" where
  "isArray (JArr xs) = True"
| "isArray v = False"

subsection \<open>Own properties\<close>

text \<open>The decimal name of an array index.\<close>

definition digit_char :: "nat \<Rightarrow> char" where
  "digit_char d = ''0123456789'' ! d"

fun show_nat :: "nat \<Rightarrow> string" where
  "show_nat n = (if n < 10 then [digit_char n] else show_nat (n div 10) @ [digit_char (n mod 10)])"

declare show_nat.simps [simp del]

definition indexed :: "'a list \<Rightarrow> (string \<times> 'a) list" where
  "indexed xs = zip (map show_nat [0..<length xs]) xs"

text \<open>
  The own enumerable properties of a value, which is what an object spread copies:
  the properties of an object, the elements of an array, the characters of a string,
  nothing for the other primitives (spreading \<^verbatim>\<open>undefined\<close> or \<^verbatim>\<open>null\<close> copies nothing
  and does not throw).
\<close>

fun enumerable_props :: "jsval \<Rightarrow> (string \<times> jsval) list" where
  "enumerable_props (JObj ps) = ps"
| "enumerable_props (JArr xs) = indexed xs"
| "enumerable_props (JStr s) = indexed (map (\<lambda>c. JStr [c]) s)"
| "enumerable_props v = []"

text \<open>All own properties: arrays and strings also have \<^verbatim>\<open>length\<close>.\<close>

fun own_props :: "jsval \<Rightarrow> (string \<times> jsval) list" where
  "own_props (JArr xs) = indexed xs @ [(''length'', JNum (int (length xs)))]"
| "own_props (JStr s) = indexed (map (\<lambda>c. JStr [c]) s) @ [(''length'', JNum (int (length s)))]"
| "own_props v = enumerable_props v"

definition lookup :: "(string \<times> 'a) list \<Rightarrow> string \<Rightarrow> 'a option" where
  "lookup ps k = map_of (rev ps) k"

text \<open>
  Reading \<^verbatim>\<open>v.k\<close>: a TypeError on \<^verbatim>\<open>undefined\<close> and \<^verbatim>\<open>null\<close>, otherwise the property's
  value, \<^verbatim>\<open>undefined\<close> when there is no such property.
\<close>

definition get_prop :: "jsval \<Rightarrow> string \<Rightarrow> error + jsval" where
  "get_prop v k =
     (if v = JUndefined \<or> v = JNull then Inl TypeError
      else Inr (case lookup (own_props v) k of Some w \<Rightarrow> w | None \<Rightarrow> JUndefined))"

subsection \<open>Expressions that may throw\<close>

definition ebind :: "error + 'a \<Rightarrow> ('a \<Rightarrow> error + 'b) \<Rightarrow> error + 'b" where
  "ebind m f = (case m of Inl e \<Rightarrow> Inl e | Inr x \<Rightarrow> f x)"

text \<open>\<^verbatim>\<open>a && b\<close> and \<^verbatim>\<open>a || b\<close> on booleans: the right operand is evaluated only when needed.\<close>

definition andalso :: "error + bool \<Rightarrow> error + bool \<Rightarrow> error + bool" where
  "andalso a b = (case a of Inl e \<Rightarrow> Inl e | Inr x \<Rightarrow> if x then b else Inr False)"

definition orelse :: "error + bool \<Rightarrow> error + bool \<Rightarrow> error + bool" where
  "orelse a b = (case a of Inl e \<Rightarrow> Inl e | Inr x \<Rightarrow> if x then Inr True else b)"

text \<open>
  \<^verbatim>\<open>Array.prototype.every\<close>: stops at the first element the callback rejects; an
  exception of the callback propagates.
\<close>

fun every :: "('a \<Rightarrow> error + bool) \<Rightarrow> 'a list \<Rightarrow> error + bool" where
  "every cb [] = Inr True"
| "every cb (x # xs) =
     (case cb x of Inl e \<Rightarrow> Inl e | Inr b \<Rightarrow> if b then every cb xs else Inr False)"

text \<open>\<^verbatim>\<open>v.every(cb)\<close>: only an array has the method; calling it on anything else throws.\<close>

fun call_every :: "jsval \<Rightarrow> (jsval \<Rightarrow> error + bool) \<Rightarrow> error + bool" where
  "call_every (JArr xs) cb = every cb xs"
| "call_every v cb = Inl TypeError"

section \<open>The error envelope\<close>

text \<open>The members of the union type \<^verbatim>\<open>ApiErrorCode\<close>.\<close>

definition ApiErrorCode :: "string list" where
  "ApiErrorCode =
     [''BAD_REQUEST'', ''UNAUTHORIZED'', ''FORBIDDEN'', ''NOT_FOUND'', ''CONFLICT'',
      ''RATE_LIMITED'', ''VALIDATION_ERROR'', ''INTERNAL_ERROR'', ''SERVICE_UNAVAILABLE'',
      ''TIMEOUT'']"

text \<open>
  The callback of \<^verbatim>\<open>every\<close> in \<^verbatim>\<open>isApiError\<close>:
  \<^verbatim>\<open>f && typeof f === 'object' && typeof f.field === 'string' && typeof f.message === 'string'\<close>.
  Its value is either the falsy \<^verbatim>\<open>f\<close> or a boolean, and \<^verbatim>\<open>every\<close> applies ToBoolean to it.
\<close>

definition fieldError_ok :: "jsval \<Rightarrow> error + bool" where
  "fieldError_ok f =
     andalso (Inr (truthy f))
    (andalso (Inr (typeof f = ''object''))
    (andalso (ebind (get_prop f ''field'') (\<lambda>w. Inr (typeof w = ''string'')))
             (ebind (get_prop f ''message'') (\<lambda>w. Inr (typeof w = ''string'')))))"

definition isApiError :: "jsval \<Rightarrow> error + bool" where
  "isApiError input =
     (if \<not> truthy input \<or> typeof input \<noteq> ''object'' then Inr False
      else
        andalso (ebind (get_prop input ''code'') (\<lambda>w. Inr (typeof w = ''string'')))
       (andalso (ebind (get_prop input ''message'') (\<lambda>w. Inr (typeof w = ''string'')))
       (andalso (orelse (ebind (get_prop input ''details'') (\<lambda>w. Inr (w = JUndefined)))
                        (ebind (get_prop input ''details'') (\<lambda>w. Inr (typeof w = ''object''))))
       (andalso (orelse (ebind (get_prop input ''fieldErrors'') (\<lambda>w. Inr (w = JUndefined)))
                        (andalso (ebind (get_prop input ''fieldErrors'') (\<lambda>w. Inr (isArray w)))
                                 (ebind (get_prop input ''fieldErrors'')
                                        (\<lambda>w. call_every w fieldError_ok))))
                (orelse (ebind (get_prop input ''correlationId'') (\<lambda>w. Inr (w = JUndefined)))
                        (ebind (get_prop input ''correlationId'')
                               (\<lambda>w. Inr (typeof w = ''string''))))))))"

text \<open>
  \<^verbatim>\<open>createApiError\<close> on a data value: the object literal
  \<^verbatim>\<open>{ details: undefined, fieldErrors: undefined, correlationId: undefined, ...partial }\<close>.
  The spread assigns each own enumerable property of \<^verbatim>\<open>partial\<close> in turn: an existing key
  keeps its place and takes the new value, a new key is appended. All properties of a
  data value are own and enumerable, so all are copied.
\<close>

definition spread :: "(string \<times> jsval) list \<Rightarrow> jsval \<Rightarrow> (string \<times> jsval) list" where
  "spread target src = fold (\<lambda>(k, v). AList.update k v) (enumerable_props src) target"

definition createApiError :: "jsval \<Rightarrow> jsval" where
  "createApiError partial =
     JObj (spread [(''details'', JUndefined), (''fieldErrors'', JUndefined),
                   (''correlationId'', JUndefined)] partial)"

section \<open>The shape the specification describes\<close>

text \<open>
  The specification's words, written down independently of the guard. A field is
  present when reading it gives something other than \<^verbatim>\<open>undefined\<close>: the specification
  calls \<^verbatim>\<open>undefined\<close> the absent sentinel of an optional field, and the values the builder
  returns carry their missing optional fields that way.
\<close>

definition field_of :: "jsval \<Rightarrow> string \<Rightarrow> jsval option" where
  "field_of v k =
     (case lookup (own_props v) k of
        None \<Rightarrow> None
      | Some w \<Rightarrow> if w = JUndefined then None else Some w)"

fun is_string :: "jsval \<Rightarrow> bool" where
  "is_string (JStr s) = True"
| "is_string v = False"

definition object_typed :: "jsval \<Rightarrow> bool" where
  "object_typed v = (typeof v = ''object'')"

definition has_string_field :: "jsval \<Rightarrow> string \<Rightarrow> bool" where
  "has_string_field v k = (case field_of v k of None \<Rightarrow> False | Some w \<Rightarrow> is_string w)"

definition FieldError_shape :: "jsval \<Rightarrow> bool" where
  "FieldError_shape x = (has_string_field x ''field'' \<and> has_string_field x ''message'')"

fun FieldError_sequence :: "jsval \<Rightarrow> bool" where
  "FieldError_sequence (JArr xs) = list_all FieldError_shape xs"
| "FieldError_sequence v = False"

definition details_conform :: "jsval \<Rightarrow> bool" where
  "details_conform v = (case field_of v ''details'' of None \<Rightarrow> True | Some d \<Rightarrow> object_typed d)"

definition fieldErrors_conform :: "jsval \<Rightarrow> bool" where
  "fieldErrors_conform v =
     (case field_of v ''fieldErrors'' of None \<Rightarrow> True | Some fe \<Rightarrow> FieldError_sequence fe)"

definition correlationId_conform :: "jsval \<Rightarrow> bool" where
  "correlationId_conform v =
     (case field_of v ''correlationId'' of None \<Rightarrow> True | Some c \<Rightarrow> is_string c)"

definition ApiError_shape :: "jsval \<Rightarrow> bool" where
  "ApiError_shape v =
     (has_string_field v ''code'' \<and> has_string_field v ''message'' \<and>
      details_conform v \<and> fieldErrors_conform v \<and> correlationId_conform v)"

text \<open>The own keys of an object, and membership of a value in \<^verbatim>\<open>ApiErrorCode\<close>.\<close>

definition own_keys :: "jsval \<Rightarrow> string set" where
  "own_keys v = fst ` set (own_props v)"

fun is_ApiErrorCode :: "jsval \<Rightarrow> bool" where
  "is_ApiErrorCode (JStr s) = (s \<in> set ApiErrorCode)"
| "is_ApiErrorCode v = False"

text \<open>
  A property name that is neither an array index nor \<^verbatim>\<open>length\<close>: only an object can
  have it as an own property.
\<close>

definition named :: "string \<Rightarrow> bool" where
  "named k = (k \<noteq> ''length'' \<and> (\<exists>c \<in> set k. c \<notin> set ''0123456789''))"

text \<open>
  The invariant the data model states for an \<^verbatim>\<open>ApiError\<close>: its \<^verbatim>\<open>code\<close> is a member of
  \<^verbatim>\<open>ApiErrorCode\<close> and its \<^verbatim>\<open>message\<close> is present as a string.
\<close>

definition ApiError_invariant :: "jsval \<Rightarrow> bool" where
  "ApiError_invariant v =
     ((case field_of v ''code'' of None \<Rightarrow> False | Some c \<Rightarrow> is_ApiErrorCode c) \<and>
      has_string_field v ''message'')"

section \<open>Sample values\<close>

text \<open>
  The two builder inputs the specification names, an envelope with a code outside
  \<^verbatim>\<open>ApiErrorCode\<close>, one with \<^verbatim>\<open>details: null\<close>, and one whose \<^verbatim>\<open>fieldErrors\<close> holds a
  \<^verbatim>\<open>null\<close> element.
\<close>

definition ex_not_found :: jsval where
  "ex_not_found = JObj [(''code'', JStr ''NOT_FOUND''), (''message'', JStr ''x'')]"

definition ex_validation :: jsval where
  "ex_validation =
     JObj [(''code'', JStr ''VALIDATION_ERROR''), (''message'', JStr ''bad''),
           (''fieldErrors'',
            JArr [JObj [(''field'', JStr ''email''), (''message'', JStr ''invalid'')]])]"

definition ex_weird :: jsval where
  "ex_weird = JObj [(''code'', JStr ''WEIRD''), (''message'', JStr ''x'')]"

definition ex_null_details :: jsval where
  "ex_null_details =
     JObj [(''code'', JStr ''NOT_FOUND''), (''message'', JStr ''x''), (''details'', JNull)]"

definition ex_bad_fieldErrors :: jsval where
  "ex_bad_fieldErrors =
     JObj [(''code'', JStr ''VALIDATION_ERROR''), (''message'', JStr ''bad''),
           (''fieldErrors'',
            JArr [JObj [(''field'', JStr ''email''), (''message'', JStr ''invalid'')], JNull])]"

section \<open>Objects with property attributes\<close>

text \<open>
  A data value has own, enumerable data properties only. An object the code can
  receive may also have accessor properties, whose read runs a getter, properties that
  are not enumerable, and properties it inherits from its prototype. The guard reads
  with \<^verbatim>\<open>i.code\<close>, which runs getters and follows the prototype chain; the spread in the
  builder copies the own enumerable properties only, reading each through its getter.
  Runtime values carry these attributes. A getter is given by its outcome, and the
  properties an object inherits are listed with it, read like the own ones.
\<close>

text \<open>
  \<open>Data v e\<close> is a data property of value \<open>v\<close>, \<open>Accessor r e\<close> an accessor whose getter
  returns or throws as \<open>r\<close> says; \<open>e\<close> tells whether the property is enumerable.
  \<open>RObj own inh\<close> is an object with own properties \<open>own\<close> and inherited properties \<open>inh\<close>;
  in either list a later binding of a key overrides an earlier one. \<open>RFun\<close> is a function.
\<close>

datatype 'v property =
    Data 'v bool
  | Accessor "error + 'v" bool

datatype rtval =
    RUndefined
  | RNull
  | RBool bool
  | RNum int
  | RStr string
  | RFun
  | RArr "rtval list"
  | RObj "(string \<times> rtval property) list" "(string \<times> rtval property) list"

fun enumerable :: "'v property \<Rightarrow> bool" where
  "enumerable (Data v e) = e"
| "enumerable (Accessor r e) = e"

text \<open>The value a read of the property gives: the getter of an accessor may throw.\<close>

fun read_prop :: "'v property \<Rightarrow> error + 'v" where
  "read_prop (Data v e) = Inr v"
| "read_prop (Accessor r e) = r"

fun typeof_rt :: "rtval \<Rightarrow> string" where
  "typeof_rt RUndefined = ''undefined''"
| "typeof_rt RNull = ''object''"
| "typeof_rt (RBool b) = ''boolean''"
| "typeof_rt (RNum n) = ''number''"
| "typeof_rt (RStr s) = ''string''"
| "typeof_rt RFun = ''function''"
| "typeof_rt (RArr xs) = ''object''"
| "typeof_rt (RObj own inh) = ''object''"

fun truthy_rt :: "rtval \<Rightarrow> bool" where
  "truthy_rt RUndefined = False"
| "truthy_rt RNull = False"
| "truthy_rt (RBool b) = b"
| "truthy_rt (RNum n) = (n \<noteq> 0)"
| "truthy_rt (RStr s) = (s \<noteq> [])"
| "truthy_rt RFun = True"
| "truthy_rt (RArr xs) = True"
| "truthy_rt (RObj own inh) = True"

fun isArray_rt :: "rtval \<Rightarrow> bool" where
  "isArray_rt (RArr xs) = True"
| "isArray_rt v = False"

text \<open>
  The methods every object inherits from \<^verbatim>\<open>Object.prototype\<close>, none of them enumerable.
  The legacy accessor \<^verbatim>\<open>__proto__\<close> and the \<^verbatim>\<open>__defineGetter__\<close> family are left out, and
  so are the methods that arrays, strings, numbers, booleans and functions inherit from
  their own prototypes: none has one of the names the code reads.
\<close>

definition Object_prototype :: "(string \<times> rtval property) list" where
  "Object_prototype =
     map (\<lambda>k. (k, Data RFun False))
       [''constructor'', ''hasOwnProperty'', ''isPrototypeOf'', ''propertyIsEnumerable'',
        ''toLocaleString'', ''toString'', ''valueOf'']"

text \<open>
  Own properties: those of an object; the elements of an array and the characters of a
  string, enumerable, with a \<^verbatim>\<open>length\<close> that is not.
\<close>

fun own_rt :: "rtval \<Rightarrow> (string \<times> rtval property) list" where
  "own_rt (RObj own inh) = own"
| "own_rt (RArr xs) =
     map (map_prod id (\<lambda>v. Data v True)) (indexed xs) @
     [(''length'', Data (RNum (int (length xs))) False)]"
| "own_rt (RStr s) =
     map (map_prod id (\<lambda>v. Data v True)) (indexed (map (\<lambda>c. RStr [c]) s)) @
     [(''length'', Data (RNum (int (length s))) False)]"
| "own_rt v = []"

fun inherited_rt :: "rtval \<Rightarrow> (string \<times> rtval property) list" where
  "inherited_rt (RObj own inh) = inh"
| "inherited_rt v = Object_prototype"

text \<open>
  Reading \<^verbatim>\<open>v.k\<close>: a TypeError on \<^verbatim>\<open>undefined\<close> and \<^verbatim>\<open>null\<close>; otherwise the own property,
  else the inherited one, read through its getter when it is an accessor; \<^verbatim>\<open>undefined\<close>
  when there is neither.
\<close>

definition get_prop_rt :: "rtval \<Rightarrow> string \<Rightarrow> error + rtval" where
  "get_prop_rt v k =
     (if v = RUndefined \<or> v = RNull then Inl TypeError
      else case lookup (own_rt v) k of
             Some p \<Rightarrow> read_prop p
           | None \<Rightarrow> (case lookup (inherited_rt v) k of
                        Some p \<Rightarrow> read_prop p
                      | None \<Rightarrow> Inr RUndefined))"

fun call_every_rt :: "rtval \<Rightarrow> (rtval \<Rightarrow> error + bool) \<Rightarrow> error + bool" where
  "call_every_rt (RArr xs) cb = every cb xs"
| "call_every_rt v cb = Inl TypeError"

text \<open>The guard of \<^verbatim>\<open>isApiError\<close> and its callback, over runtime values.\<close>

definition fieldError_ok_rt :: "rtval \<Rightarrow> error + bool" where
  "fieldError_ok_rt f =
     andalso (Inr (truthy_rt f))
    (andalso (Inr (typeof_rt f = ''object''))
    (andalso (ebind (get_prop_rt f ''field'') (\<lambda>w. Inr (typeof_rt w = ''string'')))
             (ebind (get_prop_rt f ''message'') (\<lambda>w. Inr (typeof_rt w = ''string'')))))"

definition isApiError_rt :: "rtval \<Rightarrow> error + bool" where
  "isApiError_rt input =
     (if \<not> truthy_rt input \<or> typeof_rt input \<noteq> ''object'' then Inr False
      else
        andalso (ebind (get_prop_rt input ''code'') (\<lambda>w. Inr (typeof_rt w = ''string'')))
       (andalso (ebind (get_prop_rt input ''message'') (\<lambda>w. Inr (typeof_rt w = ''string'')))
       (andalso (orelse (ebind (get_prop_rt input ''details'') (\<lambda>w. Inr (w = RUndefined)))
                        (ebind (get_prop_rt input ''details'')
                               (\<lambda>w. Inr (typeof_rt w = ''object''))))
       (andalso (orelse (ebind (get_prop_rt input ''fieldErrors'') (\<lambda>w. Inr (w = RUndefined)))
                        (andalso (ebind (get_prop_rt input ''fieldErrors'')
                                        (\<lambda>w. Inr (isArray_rt w)))
                                 (ebind (get_prop_rt input ''fieldErrors'')
                                        (\<lambda>w. call_every_rt w fieldError_ok_rt))))
                (orelse (ebind (get_prop_rt input ''correlationId'') (\<lambda>w. Inr (w = RUndefined)))
                        (ebind (get_prop_rt input ''correlationId'')
                               (\<lambda>w. Inr (typeof_rt w = ''string''))))))))"

text \<open>
  The spread \<^verbatim>\<open>...partial\<close> visits the own keys of \<^verbatim>\<open>partial\<close> in turn. A key whose
  property is enumerable is read, through its getter when it is an accessor, and
  assigned to the target as an enumerable data property; a property that is not
  enumerable is skipped without being read. An exception of a getter ends the spread.
\<close>

definition copy_prop ::
  "rtval \<Rightarrow> string \<Rightarrow> (string \<times> rtval property) list \<Rightarrow> error + (string \<times> rtval property) list" where
  "copy_prop src k target =
     (case lookup (own_rt src) k of
        None \<Rightarrow> Inr target
      | Some p \<Rightarrow>
          if enumerable p
          then ebind (read_prop p) (\<lambda>v. Inr (AList.update k (Data v True) target))
          else Inr target)"

fun spread_keys ::
  "rtval \<Rightarrow> string list \<Rightarrow> (string \<times> rtval property) list \<Rightarrow> error + (string \<times> rtval property) list" where
  "spread_keys src [] target = Inr target"
| "spread_keys src (k # ks) target = ebind (copy_prop src k target) (spread_keys src ks)"

definition spread_rt ::
  "(string \<times> rtval property) list \<Rightarrow> rtval \<Rightarrow> error + (string \<times> rtval property) list" where
  "spread_rt target src = spread_keys src (map fst (own_rt src)) target"

text \<open>
  \<^verbatim>\<open>createApiError\<close> over runtime values: the object literal gives an ordinary object,
  whose prototype is \<^verbatim>\<open>Object.prototype\<close>.
\<close>

definition createApiError_rt :: "rtval \<Rightarrow> error + rtval" where
  "createApiError_rt partial =
     ebind (spread_rt [(''details'', Data RUndefined True), (''fieldErrors'', Data RUndefined True),
                       (''correlationId'', Data RUndefined True)] partial)
           (\<lambda>ps. Inr (RObj ps Object_prototype))"

text \<open>A data value as a runtime value.\<close>

primrec of_data :: "jsval \<Rightarrow> rtval" where
  "of_data JUndefined = RUndefined"
| "of_data JNull = RNull"
| "of_data (JBool b) = RBool b"
| "of_data (JNum n) = RNum n"
| "of_data (JStr s) = RStr s"
| "of_data (JArr xs) = RArr (map of_data xs)"
| "of_data (JObj ps) = RObj (map (map_prod id (\<lambda>v. Data (of_data v) True)) ps) Object_prototype"

text \<open>
  What a reader of a runtime value sees of the invariant: \<^verbatim>\<open>code\<close> reads as one of the ten
  tags and \<^verbatim>\<open>message\<close> reads as a string.
\<close>

fun is_listed_code :: "error + rtval \<Rightarrow> bool" where
  "is_listed_code (Inr (RStr s)) = (s \<in> set ApiErrorCode)"
| "is_listed_code r = False"

fun is_string_read :: "error + rtval \<Rightarrow> bool" where
  "is_string_read (Inr (RStr s)) = True"
| "is_string_read r = False"

definition ApiError_invariant_rt :: "rtval \<Rightarrow> bool" where
  "ApiError_invariant_rt r =
     (is_listed_code (get_prop_rt r ''code'') \<and> is_string_read (get_prop_rt r ''message''))"

definition own_keys_rt :: "rtval \<Rightarrow> string set" where
  "own_keys_rt r = fst ` set (own_rt r)"

section \<open>Reading properties\<close>

lemma show_nat_digits: "set (show_nat n) \<subseteq> set ''0123456789''"
proof (induction n rule: show_nat.induct)
  case (1 n)
  have d: "\<And>d. d < 10 \<Longrightarrow> digit_char d \<in> set ''0123456789''"
    unfolding digit_char_def by (rule nth_mem) simp
  show ?case
  proof (cases "n < 10")
    case True
    then show ?thesis using d[of n] by (subst show_nat.simps) simp
  next
    case False
    then show ?thesis using 1 d[of "n mod 10"] by (subst show_nat.simps) simp
  qed
qed

lemma indexed_keys: "k \<in> fst ` set (indexed xs) \<Longrightarrow> set k \<subseteq> set ''0123456789''"
proof -
  assume "k \<in> fst ` set (indexed xs)"
  then obtain w where "(k, w) \<in> set (indexed xs)" by auto
  then have "k \<in> set (map show_nat [0..<length xs])"
    unfolding indexed_def by (rule set_zip_leftD)
  then show ?thesis using show_nat_digits by auto
qed

lemma lookup_None: "k \<notin> fst ` set ps \<Longrightarrow> lookup ps k = None"
  by (simp add: lookup_def map_of_eq_None_iff)

lemma lookup_indexed: "c \<in> set k \<Longrightarrow> c \<notin> set ''0123456789'' \<Longrightarrow> lookup (indexed xs) k = None"
  using indexed_keys[of k xs] by (intro lookup_None) blast

lemma lookup_append: "lookup (ps @ qs) k = (case lookup qs k of Some w \<Rightarrow> Some w | None \<Rightarrow> lookup ps k)"
  unfolding lookup_def by (simp add: map_add_def split: option.splits)

lemma own_props_named:
  assumes "named k"
  shows "lookup (own_props v) k = (case v of JObj ps \<Rightarrow> lookup ps k | _ \<Rightarrow> None)"
proof -
  from assms obtain c where c: "c \<in> set k" "c \<notin> set ''0123456789''" and l: "k \<noteq> ''length''"
    unfolding named_def by blast
  have i: "lookup (indexed xs) k = None" for xs using c by (rule lookup_indexed)
  have e: "lookup [] k = None" by (simp add: lookup_def)
  have n: "lookup [(''length'', w)] k = None" for w using l by (simp add: lookup_def)
  show ?thesis
    by (cases v) (simp_all add: lookup_append i e n)
qed

lemma named_keys:
  "named ''code''" "named ''message''" "named ''details''" "named ''fieldErrors''"
  "named ''correlationId''" "named ''field''"
  by (simp_all add: named_def)

lemma field_of_named:
  "named k \<Longrightarrow> field_of v k =
     (case v of JObj ps \<Rightarrow> (case lookup ps k of None \<Rightarrow> None
                             | Some w \<Rightarrow> if w = JUndefined then None else Some w)
              | _ \<Rightarrow> None)"
  unfolding field_of_def by (simp only: own_props_named) (simp split: jsval.splits)

lemma get_prop_named:
  "named k \<Longrightarrow> get_prop v k =
     (if v = JUndefined \<or> v = JNull then Inl TypeError
      else Inr (case field_of v k of None \<Rightarrow> JUndefined | Some w \<Rightarrow> w))"
  unfolding get_prop_def field_of_def by (simp split: option.splits)

lemma is_string_typeof: "is_string w = (typeof w = ''string'')"
  by (cases w) simp_all

lemma every_Inr: "(\<And>x. x \<in> set xs \<Longrightarrow> cb x = Inr (P x)) \<Longrightarrow> every cb xs = Inr (list_all P xs)"
  by (induction xs) auto

lemma fieldError_ok_eq: "fieldError_ok f = Inr (FieldError_shape f)"
proof (cases "truthy f \<and> typeof f = ''object''")
  case True
  then have "f \<noteq> JUndefined" "f \<noteq> JNull" by auto
  then show ?thesis using True
    by (simp add: fieldError_ok_def FieldError_shape_def has_string_field_def 
        get_prop_named named_keys andalso_def ebind_def is_string_typeof split: option.splits)
next
  case False
  then have "field_of f ''field'' = None"
    by (cases f) (simp_all add: field_of_named named_keys)
  then show ?thesis using False
    by (auto simp add: fieldError_ok_def FieldError_shape_def has_string_field_def andalso_def)
qed

lemma call_every_eq: "isArray w \<Longrightarrow> call_every w fieldError_ok = Inr (FieldError_sequence w)"
  by (cases w) (simp_all add: every_Inr fieldError_ok_eq)

lemma FieldError_sequence_isArray: "FieldError_sequence w \<Longrightarrow> isArray w"
  by (cases w) simp_all

lemma isApiError_eq: "isApiError v = Inr (ApiError_shape v)"
proof (cases "truthy v \<and> typeof v = ''object''")
  case True
  then have nn: "v \<noteq> JUndefined" "v \<noteq> JNull" by auto
  have fe: "(case field_of v ''fieldErrors'' of None \<Rightarrow> True | Some fe \<Rightarrow> FieldError_sequence fe) =
     (case field_of v ''fieldErrors'' of None \<Rightarrow> True | Some fe \<Rightarrow> isArray fe \<and> FieldError_sequence fe)"
    by (auto split: option.splits dest: FieldError_sequence_isArray)
  have u: "field_of v k = Some w \<Longrightarrow> w \<noteq> JUndefined" for k w
    by (simp add: field_of_def split: option.splits if_splits)
  show ?thesis using True nn 
    unfolding isApiError_def ApiError_shape_def has_string_field_def details_conform_def
      fieldErrors_conform_def correlationId_conform_def fe
    by (auto simp add: get_prop_named named_keys andalso_def orelse_def ebind_def is_string_typeof
        object_typed_def call_every_eq split: option.splits dest: u)
next
  case False
  then have "field_of v ''code'' = None"
    by (cases v) (simp_all add: field_of_named named_keys)
  then show ?thesis using False
    by (auto simp add: isApiError_def ApiError_shape_def has_string_field_def)
qed

section \<open>The object the builder returns\<close>

lemma fold_update_map_of:
  "map_of (fold (\<lambda>(k, v). AList.update k v) ps acc) = map_of acc ++ map_of (rev ps)"
proof (induction ps arbitrary: acc)
  case Nil
  then show ?case by simp
next
  case (Cons p ps)
  obtain k v where p: "p = (k, v)" by (cases p)
  show ?case unfolding p
    by (rule ext) (simp add: Cons.IH update_conv' map_add_def split: option.splits)
qed

lemma fold_update_distinct:
  "distinct (map fst acc) \<Longrightarrow> distinct (map fst (fold (\<lambda>(k, v). AList.update k v) ps acc))"
  by (induction ps arbitrary: acc) (auto simp: distinct_update)

lemma fold_update_keys:
  "fst ` set (fold (\<lambda>(k, v). AList.update k v) ps acc) = fst ` set acc \<union> fst ` set ps"
proof (induction ps arbitrary: acc)
  case Nil
  then show ?case by simp
next
  case (Cons p ps)
  obtain k v where p: "p = (k, v)" by (cases p)
  have "fst ` set (fold (\<lambda>(k, v). AList.update k v) (p # ps) acc) =
        fst ` set (AList.update k v acc) \<union> fst ` set ps"
    unfolding p by (simp add: Cons.IH)
  also have "\<dots> = fst ` set acc \<union> fst ` set (p # ps)"
    unfolding p dom_update by auto
  finally show ?case .
qed

lemma map_of_rev_distinct: "distinct (map fst xs) \<Longrightarrow> map_of (rev xs) = map_of xs"
proof -
  assume d: "distinct (map fst xs)"
  then have "distinct (map fst (rev xs))" by (simp add: rev_map[symmetric])
  then show ?thesis using d by (simp add: map_of_inject_set)
qed

lemma lookup_spread:
  assumes "distinct (map fst target)"
  shows "lookup (spread target src) k =
     (case lookup (enumerable_props src) k of Some w \<Rightarrow> Some w | None \<Rightarrow> lookup target k)"
proof -
  have "distinct (map fst (spread target src))"
    unfolding spread_def using assms by (rule fold_update_distinct)
  then have "lookup (spread target src) k = map_of (spread target src) k"
    unfolding lookup_def by (simp only: map_of_rev_distinct)
  also have "\<dots> = (map_of target ++ map_of (rev (enumerable_props src))) k"
    unfolding spread_def by (simp only: fold_update_map_of)
  also have "\<dots> = (case lookup (enumerable_props src) k of Some w \<Rightarrow> Some w | None \<Rightarrow> lookup target k)"
    unfolding lookup_def using assms by (simp add: map_add_def map_of_rev_distinct split: option.splits)
  finally show ?thesis .
qed

lemma lookup_createApiError:
  "lookup (own_props (createApiError p)) k =
     (case lookup (enumerable_props p) k of
        Some w \<Rightarrow> Some w
      | None \<Rightarrow> if k \<in> {''details'', ''fieldErrors'', ''correlationId''} then Some JUndefined else None)"
  unfolding createApiError_def
  by (simp add: lookup_spread) (simp add: lookup_def split: option.splits)

lemma own_keys_createApiError:
  "own_keys (createApiError p) =
     {''details'', ''fieldErrors'', ''correlationId''} \<union> fst ` set (enumerable_props p)"
  unfolding createApiError_def own_keys_def spread_def
  by (simp add: fold_update_keys)

lemma enumerable_named:
  "named k \<Longrightarrow> lookup (enumerable_props p) k = (case p of JObj ps \<Rightarrow> lookup ps k | _ \<Rightarrow> None)"
proof -
  assume n: "named k"
  then obtain c where c: "c \<in> set k" "c \<notin> set ''0123456789''"
    unfolding named_def by blast
  have i: "lookup (indexed xs) k = None" for xs using c by (rule lookup_indexed)
  have e: "lookup [] k = None" by (simp add: lookup_def)
  show ?thesis by (cases p) (simp_all add: i e)
qed

lemma field_of_createApiError:
  "named k \<Longrightarrow> field_of (createApiError p) k = field_of p k"
  by (simp add: field_of_def[of "createApiError p"] lookup_createApiError enumerable_named
      field_of_named split: jsval.splits option.splits)

lemma ApiError_shape_createApiError: "ApiError_shape (createApiError p) = ApiError_shape p"
  unfolding ApiError_shape_def has_string_field_def details_conform_def
      fieldErrors_conform_def correlationId_conform_def
  by (simp only: field_of_createApiError named_keys)

lemma get_prop_Inr_field_of:
  "named k \<Longrightarrow> get_prop v k = Inr w \<Longrightarrow> w \<noteq> JUndefined \<Longrightarrow> field_of v k = Some w"
  by (auto simp: get_prop_named split: if_splits option.splits)

section \<open>Data values as runtime values\<close>

text \<open>
  On a data value the guard and the builder over runtime values do what the guard and
  the builder over data values do.
\<close>

lemma typeof_rt_of_data [simp]: "typeof_rt (of_data v) = typeof v"
  by (cases v) simp_all

lemma truthy_rt_of_data [simp]: "truthy_rt (of_data v) = truthy v"
  by (cases v) simp_all

lemma isArray_rt_of_data [simp]: "isArray_rt (of_data v) = isArray v"
  by (cases v) simp_all

lemma of_data_undefined [simp]: "(of_data v = RUndefined) = (v = JUndefined)"
  by (cases v) simp_all

lemma of_data_null [simp]: "(of_data v = RNull) = (v = JNull)"
  by (cases v) simp_all

lemma lookup_map_prod: "lookup (map (map_prod id f) ps) k = map_option f (lookup ps k)"
proof -
  have "map_of (map (map_prod id f) qs) k = map_option f (map_of qs k)" for qs
    by (induction qs) auto
  then show ?thesis unfolding lookup_def by (simp add: rev_map)
qed

lemma Object_prototype_guard_keys:
  "lookup Object_prototype ''code'' = None" "lookup Object_prototype ''message'' = None"
  "lookup Object_prototype ''details'' = None" "lookup Object_prototype ''fieldErrors'' = None"
  "lookup Object_prototype ''correlationId'' = None" "lookup Object_prototype ''field'' = None"
  by (simp_all add: Object_prototype_def lookup_def)

lemma get_prop_rt_of_data:
  assumes "named k" and "lookup Object_prototype k = None"
  shows "get_prop_rt (of_data v) k = map_sum id of_data (get_prop v k)"
proof -
  from assms(1) obtain c where c: "c \<in> set k" "c \<notin> set ''0123456789''" and l: "k \<noteq> ''length''"
    unfolding named_def by blast
  have i: "lookup (indexed xs) k = None" for xs :: "'a list" using c by (rule lookup_indexed)
  have e: "lookup [] k = None" by (simp add: lookup_def)
  have n: "lookup [(''length'', w)] k = None" for w :: "'a" using l by (simp add: lookup_def)
  show ?thesis
    by (cases v)
       (simp_all add: get_prop_rt_def get_prop_def lookup_append lookup_map_prod i e n assms(2)
          split: option.splits)
qed

lemma every_map: "(\<And>x. g (f x) = h x) \<Longrightarrow> every g (map f xs) = every h xs"
  by (induction xs) (simp_all split: sum.splits)

lemma fieldError_ok_rt_of_data: "fieldError_ok_rt (of_data f) = fieldError_ok f"
  by (simp add: fieldError_ok_rt_def fieldError_ok_def get_prop_rt_of_data named_keys
      Object_prototype_guard_keys ebind_def split: sum.splits)


lemma call_every_rt_of_data:
  "call_every_rt (of_data w) fieldError_ok_rt = call_every w fieldError_ok"
  by (cases w) (simp_all add: every_map fieldError_ok_rt_of_data)

lemma isApiError_rt_of_data: "isApiError_rt (of_data v) = isApiError v"
proof -
  have a: "ebind (map_sum id of_data m) (\<lambda>w. Inr (typeof_rt w = t)) = ebind m (\<lambda>w. Inr (typeof w = t))"
    for m t by (cases m) (simp_all add: ebind_def)
  have b: "ebind (map_sum id of_data m) (\<lambda>w. Inr (w = RUndefined)) = ebind m (\<lambda>w. Inr (w = JUndefined))"
    for m by (cases m) (simp_all add: ebind_def)
  have c: "ebind (map_sum id of_data m) (\<lambda>w. Inr (isArray_rt w)) = ebind m (\<lambda>w. Inr (isArray w))"
    for m by (cases m) (simp_all add: ebind_def)
  have d: "ebind (map_sum id of_data m) (\<lambda>w. call_every_rt w fieldError_ok_rt) =
           ebind m (\<lambda>w. call_every w fieldError_ok)"
    for m by (cases m) (simp_all add: ebind_def call_every_rt_of_data)
  show ?thesis
    unfolding isApiError_rt_def isApiError_def
    by (simp only: get_prop_rt_of_data named_keys Object_prototype_guard_keys a b c d
        typeof_rt_of_data truthy_rt_of_data)
qed


lemma map_fst_update:
  "map fst (AList.update k v al) = (if k \<in> set (map fst al) then map fst al else map fst al @ [k])"
  by (induction al) auto

lemma alist_eqI:
  assumes "distinct (map fst a)" and "map fst a = map fst b" and "map_of a = map_of b"
  shows "a = b"
proof -
  have la: "a = zip (map fst a) (map snd a)" by (simp add: zip_map_fst_snd)
  have lb: "b = zip (map fst a) (map snd b)" using assms(2) by (simp add: zip_map_fst_snd)
  have "length (map snd a) = length (map fst a)" by simp
  moreover have "length (map snd b) = length (map fst a)"
    using assms(2) by (metis length_map)
  moreover have "map_of (zip (map fst a) (map snd a)) = map_of (zip (map fst a) (map snd b))"
    using assms(3) la lb by metis
  ultimately have "map snd a = map snd b"
    using assms(1) by (intro map_of_zip_inject [of "map snd a" "map fst a" "map snd b"])
  then show ?thesis using la lb by metis
qed

lemma fold_update_keys_only:
  "map fst t = map fst t' \<Longrightarrow>
   map fst (fold (\<lambda>(k, v). AList.update k v) ps t) =
   map fst (fold (\<lambda>k. AList.update k (g k)) (map fst ps) t')"
proof (induction ps arbitrary: t t')
  case Nil
  then show ?case by simp
next
  case (Cons p ps)
  obtain k v where p: "p = (k, v)" by (cases p)
  have "map fst (AList.update k v t) = map fst (AList.update k (g k) t')"
    using Cons.prems by (simp add: map_fst_update)
  then show ?case unfolding p by (simp add: Cons.IH)
qed

lemma fold_update_by_key_map_of:
  "map_of (fold (\<lambda>k. AList.update k (g k)) ks t) j =
     (if j \<in> set ks then Some (g j) else map_of t j)"
  by (induction ks arbitrary: t) (simp_all add: update_conv')

lemma fold_update_by_key:
  assumes "distinct (map fst t)"
  shows "fold (\<lambda>(k, v). AList.update k v) ps t =
         fold (\<lambda>k. AList.update k (the (lookup ps k))) (map fst ps) t"
proof (rule alist_eqI)
  show "distinct (map fst (fold (\<lambda>(k, v). AList.update k v) ps t))"
    using assms by (rule fold_update_distinct)
  show "map fst (fold (\<lambda>(k, v). AList.update k v) ps t) =
        map fst (fold (\<lambda>k. AList.update k (the (lookup ps k))) (map fst ps) t)"
    by (rule fold_update_keys_only) simp
  show "map_of (fold (\<lambda>(k, v). AList.update k v) ps t) =
        map_of (fold (\<lambda>k. AList.update k (the (lookup ps k))) (map fst ps) t)"
  proof
    fix j
    have "j \<in> fst ` set ps \<Longrightarrow> \<exists>w. map_of (rev ps) j = Some w"
      by (cases "map_of (rev ps) j") (simp_all add: map_of_eq_None_iff)
    moreover have "j \<notin> fst ` set ps \<Longrightarrow> map_of (rev ps) j = None"
      by (simp add: map_of_eq_None_iff)
    ultimately show "map_of (fold (\<lambda>(k, v). AList.update k v) ps t) j =
        map_of (fold (\<lambda>k. AList.update k (the (lookup ps k))) (map fst ps) t) j"
      by (cases "j \<in> fst ` set ps")
         (auto simp: fold_update_map_of fold_update_by_key_map_of lookup_def map_add_def)
  qed
qed

lemma update_map_prod:
  "AList.update k (f v) (map (map_prod id f) al) = map (map_prod id f) (AList.update k v al)"
  by (induction al) auto

lemma copy_prop_of_data:
  assumes "src = of_data (JObj ps)" and "k \<in> fst ` set ps"
  shows "copy_prop src k (map (map_prod id (\<lambda>v. Data (of_data v) True)) t) =
     Inr (map (map_prod id (\<lambda>v. Data (of_data v) True)) (AList.update k (the (lookup ps k)) t))"
proof -
  obtain w where w: "lookup ps k = Some w"
    using assms(2) unfolding lookup_def
    by (cases "map_of (rev ps) k") (simp_all add: map_of_eq_None_iff)
  show ?thesis
    unfolding assms(1)
    by (simp add: copy_prop_def lookup_map_prod w ebind_def
        update_map_prod [where f = "\<lambda>v. Data (of_data v) True"])
qed

lemma spread_keys_of_data:
  assumes "src = of_data (JObj ps)"
  shows "set ks \<subseteq> fst ` set ps \<Longrightarrow>
   spread_keys src ks (map (map_prod id (\<lambda>v. Data (of_data v) True)) t) =
     Inr (map (map_prod id (\<lambda>v. Data (of_data v) True))
            (fold (\<lambda>k. AList.update k (the (lookup ps k))) ks t))"
  by (induction ks arbitrary: t) (simp_all add: copy_prop_of_data [OF assms] ebind_def)

lemma createApiError_rt_of_data:
  "createApiError_rt (of_data (JObj ps)) = Inr (of_data (createApiError (JObj ps)))"
proof -
  let ?d = "[(''details'', JUndefined), (''fieldErrors'', JUndefined), (''correlationId'', JUndefined)]"
  let ?e = "map_prod id (\<lambda>v. Data (of_data v) True)"
  define src where "src = of_data (JObj ps)"
  have k: "map fst (own_rt src) = map fst ps" by (simp add: src_def comp_def)
  have t: "[(''details'', Data RUndefined True), (''fieldErrors'', Data RUndefined True),
            (''correlationId'', Data RUndefined True)] = map ?e ?d"
    by simp
  have "spread_rt (map ?e ?d) src =
        Inr (map ?e (fold (\<lambda>k. AList.update k (the (lookup ps k))) (map fst ps) ?d))"
    unfolding spread_rt_def k by (rule spread_keys_of_data [OF src_def]) simp
  also have "fold (\<lambda>k. AList.update k (the (lookup ps k))) (map fst ps) ?d = spread ?d (JObj ps)"
    unfolding spread_def by (simp add: fold_update_by_key)
  finally have "spread_rt (map ?e ?d) src = Inr (map ?e (spread ?d (JObj ps)))" .
  then show ?thesis
    unfolding createApiError_rt_def createApiError_def t src_def [symmetric]
    by (simp add: ebind_def)
qed

lemma own_rt_of_data_Data:
  assumes "lookup (own_rt (of_data p)) k = Some q"
  shows "\<exists>v e. q = Data v e"
proof (cases p)
  case (JObj ps)
  then show ?thesis using assms by (auto simp: lookup_map_prod)
next
  case (JArr xs)
  then show ?thesis using assms
    by (auto simp: lookup_append lookup_map_prod lookup_def [of "[_]"] split: option.splits if_splits)
next
  case (JStr s)
  then show ?thesis using assms
    by (auto simp: lookup_append lookup_map_prod lookup_def [of "[_]"] split: option.splits if_splits)
qed (use assms in \<open>simp_all add: lookup_def\<close>)

lemma copy_prop_of_data_total: "\<exists>t'. copy_prop (of_data p) k t = Inr t'"
  using own_rt_of_data_Data [of p k]
  by (auto simp: copy_prop_def ebind_def split: option.splits)

lemma spread_keys_of_data_total: "\<exists>t'. spread_keys (of_data p) ks t = Inr t'"
proof (induction ks arbitrary: t)
  case Nil
  then show ?case by simp
next
  case (Cons k ks)
  obtain t1 where "copy_prop (of_data p) k t = Inr t1"
    using copy_prop_of_data_total by blast
  then show ?case using Cons.IH [of t1] by (simp add: ebind_def)
qed

lemma createApiError_rt_of_data_total: "\<exists>r. createApiError_rt (of_data p) = Inr r"
proof -
  obtain t' where "spread_rt [(''details'', Data RUndefined True), (''fieldErrors'', Data RUndefined True),
                       (''correlationId'', Data RUndefined True)] (of_data p) = Inr t'"
    unfolding spread_rt_def using spread_keys_of_data_total by blast
  then show ?thesis by (simp add: createApiError_rt_def ebind_def)
qed


lemma is_listed_code_of_data:
  "is_listed_code (map_sum id of_data m) = (case m of Inl e \<Rightarrow> False | Inr w \<Rightarrow> is_ApiErrorCode w)"
proof (cases m)
  case (Inr w)
  then show ?thesis by (cases w) simp_all
qed simp

lemma is_string_read_of_data:
  "is_string_read (map_sum id of_data m) = (case m of Inl e \<Rightarrow> False | Inr w \<Rightarrow> is_string w)"
proof (cases m)
  case (Inr w)
  then show ?thesis by (cases w) simp_all
qed simp

lemma field_of_nullish: "v = JUndefined \<or> v = JNull \<Longrightarrow> field_of v k = None"
  by (auto simp: field_of_def lookup_def)

lemma ApiError_invariant_rt_of_data: "ApiError_invariant_rt (of_data v) = ApiError_invariant v"
  unfolding ApiError_invariant_rt_def ApiError_invariant_def has_string_field_def
  by (auto simp: get_prop_rt_of_data named_keys Object_prototype_guard_keys
      is_listed_code_of_data is_string_read_of_data get_prop_named field_of_nullish
      split: option.splits)

lemma field_of_Some_JObj: "named k \<Longrightarrow> field_of v k = Some w \<Longrightarrow> \<exists>ps. v = JObj ps"
  by (cases v) (simp_all add: field_of_named)

lemma ApiError_shape_JObj: "ApiError_shape p \<Longrightarrow> \<exists>ps. p = JObj ps"
  unfolding ApiError_shape_def has_string_field_def
  using field_of_Some_JObj [OF named_keys(1), of p]
  by (cases "field_of p ''code''") auto

lemma ApiError_invariant_JObj: "ApiError_invariant p \<Longrightarrow> \<exists>ps. p = JObj ps"
  unfolding ApiError_invariant_def
  using field_of_Some_JObj [OF named_keys(1), of p]
  by (cases "field_of p ''code''") auto

lemma ApiError_invariant_createApiError:
  "ApiError_invariant (createApiError p) = ApiError_invariant p"
  unfolding ApiError_invariant_def has_string_field_def
  by (simp only: field_of_createApiError named_keys)

lemma createApiError_rt_of_object:
  "\<exists>ps. p = JObj ps \<Longrightarrow> createApiError_rt (of_data p) = Inr (of_data (createApiError p))"
  using createApiError_rt_of_data by blast

lemma get_prop_rt_of_object:
  "get_prop_rt (of_data (JObj qs)) k =
     (case lookup qs k of
        Some w \<Rightarrow> Inr (of_data w)
      | None \<Rightarrow> (case lookup Object_prototype k of
                   Some q \<Rightarrow> read_prop q
                 | None \<Rightarrow> Inr RUndefined))"
  by (simp add: get_prop_rt_def lookup_map_prod split: option.splits)

lemma lookup_in_keys: "k \<in> fst ` set ps \<Longrightarrow> \<exists>w. lookup ps k = Some w"
  unfolding lookup_def by (cases "map_of (rev ps) k") (simp_all add: map_of_eq_None_iff)

lemma get_prop_rt_built:
  "get_prop_rt (of_data (createApiError (JObj ps))) k =
     (case lookup ps k of
        Some w \<Rightarrow> Inr (of_data w)
      | None \<Rightarrow>
          if k \<in> {''details'', ''fieldErrors'', ''correlationId''} then Inr RUndefined
          else (case lookup Object_prototype k of
                  Some q \<Rightarrow> read_prop q
                | None \<Rightarrow> Inr RUndefined))"
proof -
  have l: "lookup (spread [(''details'', JUndefined), (''fieldErrors'', JUndefined),
                           (''correlationId'', JUndefined)] (JObj ps)) k =
     (case lookup ps k of
        Some w \<Rightarrow> Some w
      | None \<Rightarrow> if k \<in> {''details'', ''fieldErrors'', ''correlationId''} then Some JUndefined else None)"
    using lookup_createApiError [of "JObj ps" k] by (simp add: createApiError_def)
  show ?thesis
    unfolding createApiError_def get_prop_rt_of_object l
    by (simp split: option.splits)
qed

lemma andalso_True: "andalso a b = Inr True \<Longrightarrow> a = Inr True \<and> b = Inr True"
  by (cases a) (auto simp: andalso_def split: if_splits)

lemma string_read: "ebind m (\<lambda>w. Inr (typeof_rt w = ''string'')) = Inr True \<Longrightarrow> is_string_read m"
proof (cases m)
  case (Inr w)
  assume "ebind m (\<lambda>w. Inr (typeof_rt w = ''string'')) = Inr True"
  then show ?thesis using Inr by (cases w) (simp_all add: ebind_def)
qed (simp add: ebind_def)

lemma isApiError_rt_accepts:
  assumes "isApiError_rt r = Inr True"
  shows "is_string_read (get_prop_rt r ''code'') \<and> is_string_read (get_prop_rt r ''message'')"
proof (cases "\<not> truthy_rt r \<or> typeof_rt r \<noteq> ''object''")
  case True
  then have "isApiError_rt r = Inr False" unfolding isApiError_rt_def by (simp only: if_True)
  then show ?thesis using assms by simp
next
  case False
  have "\<exists>rest. isApiError_rt r =
      andalso (ebind (get_prop_rt r ''code'') (\<lambda>w. Inr (typeof_rt w = ''string'')))
     (andalso (ebind (get_prop_rt r ''message'') (\<lambda>w. Inr (typeof_rt w = ''string''))) rest)"
    unfolding isApiError_rt_def by (simp only: False if_False) blast
  then obtain rest where
    "andalso (ebind (get_prop_rt r ''code'') (\<lambda>w. Inr (typeof_rt w = ''string'')))
     (andalso (ebind (get_prop_rt r ''message'') (\<lambda>w. Inr (typeof_rt w = ''string''))) rest) = Inr True"
    using assms by auto
  then have "ebind (get_prop_rt r ''code'') (\<lambda>w. Inr (typeof_rt w = ''string'')) = Inr True"
    and "ebind (get_prop_rt r ''message'') (\<lambda>w. Inr (typeof_rt w = ''string'')) = Inr True"
    by (blast dest: andalso_True)+
  then show ?thesis by (simp add: string_read)
qed

section \<open>The claims\<close>



text \<open>
  Claim C2, as the code has it. On data values \<^verbatim>\<open>isApiError\<close> is total: it never throws,
  and on \<^verbatim>\<open>null\<close>, on a value that is not an object and on a value that does not conform it
  returns false; \<^verbatim>\<open>createApiError\<close> never throws on a data value either.
\<close>

theorem isApiError_createApiError_total_on_data:
  "isApiError_rt (of_data v) \<noteq> Inl e \<and>
   (v = JNull \<or> typeof v \<noteq> ''object'' \<or> \<not> ApiError_shape v \<longrightarrow>
      isApiError_rt (of_data v) = Inr False) \<and>
   createApiError_rt (of_data p) \<noteq> Inl e"
proof -
  have n: "\<not> ApiError_shape v" if "v = JNull \<or> typeof v \<noteq> ''object''"
  proof -
    have "field_of v ''code'' = None"
      using that by (cases v) (simp_all add: field_of_named named_keys)
    then show ?thesis by (simp add: ApiError_shape_def has_string_field_def)
  qed
  have c: "createApiError_rt (of_data p) \<noteq> Inl e"
    using createApiError_rt_of_data_total [of p] by auto
  show ?thesis using n c by (auto simp: isApiError_rt_of_data isApiError_eq)
qed

theorem isApiError_createApiError_total_on_data_witness:
  "isApiError_rt (of_data JNull) = Inr False \<and> isApiError_rt (of_data (JNum 7)) = Inr False \<and>
   isApiError_rt (of_data ex_bad_fieldErrors) = Inr False \<and>
   createApiError_rt (of_data ex_not_found) \<noteq> Inl TypeError"
proof -
  have b: "\<not> ApiError_shape ex_bad_fieldErrors" by code_simp
  show ?thesis
    using b isApiError_createApiError_total_on_data [of JNull TypeError ex_not_found]
      isApiError_createApiError_total_on_data [of "JNum 7" TypeError ex_not_found]
      isApiError_createApiError_total_on_data [of ex_bad_fieldErrors TypeError ex_not_found]
    by simp
qed

text \<open>
  Claim C2 as stated, for every input and every execution path, fails on an object with
  an accessor property: the guard reads \<^verbatim>\<open>code\<close> and the spread copies it, both through the
  getter, and an exception of the getter leaves either function.
\<close>

theorem accessor_property_throws:
  "isApiError_rt
     (RObj [(''code'', Accessor (Inl (Thrown ''boom'')) True), (''message'', Data (RStr ''x'') True)]
           Object_prototype) = Inl (Thrown ''boom'') \<and>
   createApiError_rt
     (RObj [(''code'', Accessor (Inl (Thrown ''boom'')) True), (''message'', Data (RStr ''x'') True)]
           Object_prototype) = Inl (Thrown ''boom'')"
  by code_simp

text \<open>
  Claim C3, as the code has it. A value accepted by \<^verbatim>\<open>isApiError\<close>, data or not, has a
  \<^verbatim>\<open>code\<close> and a \<^verbatim>\<open>message\<close> that read as strings; the guard does not compare the code with
  \<^verbatim>\<open>ApiErrorCode\<close>.
  \<^verbatim>\<open>createApiError\<close> preserves the invariant on data values: when the code of such an
  argument reads as one of the ten tags and its message as a string, the builder returns
  a value of which the same holds.
\<close>

theorem ApiError_invariant_accepted_and_built:
  "(isApiError v = Inr True \<longrightarrow> has_string_field v ''code'' \<and> has_string_field v ''message'') \<and>
   (isApiError_rt r = Inr True \<longrightarrow>
      is_string_read (get_prop_rt r ''code'') \<and> is_string_read (get_prop_rt r ''message'')) \<and>
   (ApiError_invariant_rt (of_data p) \<longrightarrow>
      ebind (createApiError_rt (of_data p)) (\<lambda>r. Inr (ApiError_invariant_rt r)) = Inr True)"
proof -
  have "ebind (createApiError_rt (of_data p)) (\<lambda>r. Inr (ApiError_invariant_rt r)) = Inr True"
    if i: "ApiError_invariant_rt (of_data p)"
  proof -
    from i have j: "ApiError_invariant p" by (simp only: ApiError_invariant_rt_of_data)
    then have e: "createApiError_rt (of_data p) = Inr (of_data (createApiError p))"
      by (intro createApiError_rt_of_object ApiError_invariant_JObj)
    have "ApiError_invariant_rt (of_data (createApiError p))"
      using j by (simp only: ApiError_invariant_rt_of_data ApiError_invariant_createApiError)
    then show ?thesis
      unfolding e ebind_def by simp
  qed
  then show ?thesis
    using isApiError_rt_accepts [of r] by (simp add: isApiError_eq ApiError_shape_def)
qed

theorem ApiError_invariant_accepted_and_built_witness:
  "isApiError ex_validation = Inr True \<and> has_string_field ex_validation ''code'' \<and>
   has_string_field ex_validation ''message'' \<and>
   isApiError_rt
     (RObj [(''code'', Data (RStr ''WEIRD'') True)]
           (Object_prototype @ [(''message'', Data (RStr ''x'') True)])) = Inr True \<and>
   is_string_read
     (get_prop_rt
        (RObj [(''code'', Data (RStr ''WEIRD'') True)]
              (Object_prototype @ [(''message'', Data (RStr ''x'') True)])) ''message'') \<and>
   ApiError_invariant_rt (of_data ex_not_found) \<and>
   ebind (createApiError_rt (of_data ex_not_found)) (\<lambda>r. Inr (ApiError_invariant_rt r)) = Inr True"
proof -
  have a: "isApiError ex_validation = Inr True" by code_simp
  have b: "ApiError_invariant_rt (of_data ex_not_found)" by code_simp
  have c: "isApiError_rt
     (RObj [(''code'', Data (RStr ''WEIRD'') True)]
           (Object_prototype @ [(''message'', Data (RStr ''x'') True)])) = Inr True"
    by code_simp
  show ?thesis
    using a b c
      ApiError_invariant_accepted_and_built
        [of ex_validation
            "RObj [(''code'', Data (RStr ''WEIRD'') True)]
                  (Object_prototype @ [(''message'', Data (RStr ''x'') True)])"
            ex_not_found]
    by simp
qed

text \<open>
  Claim C3 as stated fails for the guard, which accepts an envelope whose code is
  \<^verbatim>\<open>'WEIRD'\<close>, none of the ten tags; and for the builder on an argument whose \<^verbatim>\<open>message\<close> is
  not enumerable, which the spread does not copy: the argument meets the invariant and
  the value built from it has no message.
\<close>

theorem isApiError_accepts_unlisted_code:
  "isApiError (JObj [(''code'', JStr ''WEIRD''), (''message'', JStr ''x'')]) = Inr True \<and>
   get_prop (JObj [(''code'', JStr ''WEIRD''), (''message'', JStr ''x'')]) ''code'' =
     Inr (JStr ''WEIRD'') \<and>
   ''WEIRD'' \<notin> set ApiErrorCode \<and>
   \<not> ApiError_invariant (JObj [(''code'', JStr ''WEIRD''), (''message'', JStr ''x'')]) \<and>
   ApiError_invariant_rt
     (RObj [(''code'', Data (RStr ''NOT_FOUND'') True), (''message'', Data (RStr ''boom'') False)]
           Object_prototype) \<and>
   ebind (createApiError_rt
            (RObj [(''code'', Data (RStr ''NOT_FOUND'') True),
                   (''message'', Data (RStr ''boom'') False)] Object_prototype))
         (\<lambda>r. Inr (ApiError_invariant_rt r)) = Inr False"
  by code_simp

text \<open>
  Claim C4, as the code has it. When the argument of \<^verbatim>\<open>createApiError\<close> is a data value
  with a string \<^verbatim>\<open>code\<close>, a string \<^verbatim>\<open>message\<close> and optional fields that conform where
  supplied, the builder returns a value that passes \<^verbatim>\<open>isApiError\<close>; so do the values built
  from \<^verbatim>\<open>{code: 'NOT_FOUND', message: 'x'}\<close> and from the \<^verbatim>\<open>VALIDATION_ERROR\<close> input with one
  field error.
\<close>

theorem createApiError_passes_isApiError:
  "(ApiError_shape p \<longrightarrow> ebind (createApiError_rt (of_data p)) isApiError_rt = Inr True) \<and>
   ebind (createApiError_rt (of_data ex_not_found)) isApiError_rt = Inr True \<and>
   ebind (createApiError_rt (of_data ex_validation)) isApiError_rt = Inr True"
proof -
  have g: "ebind (createApiError_rt (of_data q)) isApiError_rt = Inr True" if s: "ApiError_shape q" for q
  proof -
    have e: "createApiError_rt (of_data q) = Inr (of_data (createApiError q))"
      using s by (intro createApiError_rt_of_object ApiError_shape_JObj)
    have "isApiError_rt (of_data (createApiError q)) = Inr (ApiError_shape q)"
      by (simp only: isApiError_rt_of_data isApiError_eq ApiError_shape_createApiError)
    then show ?thesis using s unfolding e ebind_def by simp
  qed
  have a: "ApiError_shape ex_not_found" by code_simp
  have b: "ApiError_shape ex_validation" by code_simp
  show ?thesis using g [OF a] g [OF b] g [of p] by simp
qed

theorem createApiError_passes_isApiError_witness:
  "ApiError_shape ex_null_details \<and>
   ebind (createApiError_rt (of_data ex_null_details)) isApiError_rt = Inr True"
proof -
  have a: "ApiError_shape ex_null_details" by code_simp
  show ?thesis using a createApiError_passes_isApiError [of ex_null_details] by simp
qed

text \<open>
  Claim C4 as stated fails on an argument whose \<^verbatim>\<open>message\<close> is an own property that is not
  enumerable, as that of an \<^verbatim>\<open>Error\<close> is: the argument passes the guard, the spread leaves
  the message behind, and the value built does not pass.
\<close>

theorem createApiError_drops_hidden_message:
  "isApiError_rt
     (RObj [(''code'', Data (RStr ''NOT_FOUND'') True), (''message'', Data (RStr ''boom'') False)]
           Object_prototype) = Inr True \<and>
   ebind (createApiError_rt
            (RObj [(''code'', Data (RStr ''NOT_FOUND'') True),
                   (''message'', Data (RStr ''boom'') False)] Object_prototype))
         isApiError_rt = Inr False"
  by code_simp

text \<open>
  Claim C5, as the code has it. For an argument that is a data object, the value
  \<^verbatim>\<open>createApiError\<close> returns has the keys \<^verbatim>\<open>details\<close>, \<^verbatim>\<open>fieldErrors\<close> and \<^verbatim>\<open>correlationId\<close>
  besides those of the argument; every key the caller supplied reads as the caller's
  value; each of the three optional keys the caller did not supply reads as \<^verbatim>\<open>undefined\<close>;
  and \<^verbatim>\<open>code\<close> and \<^verbatim>\<open>message\<close> read as in the argument. The result is a function of the
  argument alone.
\<close>

theorem createApiError_defaults_and_overlay:
  "ebind (createApiError_rt (of_data (JObj ps))) (\<lambda>r. Inr (own_keys_rt r)) =
     Inr ({''details'', ''fieldErrors'', ''correlationId''} \<union> fst ` set ps) \<and>
   (k \<in> fst ` set ps \<longrightarrow>
      ebind (createApiError_rt (of_data (JObj ps))) (\<lambda>r. get_prop_rt r k) =
      get_prop_rt (of_data (JObj ps)) k) \<and>
   (k \<in> {''details'', ''fieldErrors'', ''correlationId''} \<longrightarrow> k \<notin> fst ` set ps \<longrightarrow>
      ebind (createApiError_rt (of_data (JObj ps))) (\<lambda>r. get_prop_rt r k) = Inr RUndefined) \<and>
   ebind (createApiError_rt (of_data (JObj ps))) (\<lambda>r. get_prop_rt r ''code'') =
     get_prop_rt (of_data (JObj ps)) ''code'' \<and>
   ebind (createApiError_rt (of_data (JObj ps))) (\<lambda>r. get_prop_rt r ''message'') =
     get_prop_rt (of_data (JObj ps)) ''message''"
proof -
  have e: "createApiError_rt (of_data (JObj ps)) = Inr (of_data (createApiError (JObj ps)))"
    by (rule createApiError_rt_of_data)
  have b: "ebind (createApiError_rt (of_data (JObj ps))) f = f (of_data (createApiError (JObj ps)))"
    for f :: "rtval \<Rightarrow> error + 'a"
    unfolding e ebind_def by simp
  have keys: "own_keys_rt (of_data (createApiError (JObj ps))) =
      {''details'', ''fieldErrors'', ''correlationId''} \<union> fst ` set ps"
    using own_keys_createApiError [of "JObj ps"]
    by (simp add: own_keys_rt_def own_keys_def createApiError_def image_image)
  have n: "k \<notin> fst ` set ps \<Longrightarrow> lookup ps k = None" by (rule lookup_None)
  have s: "k \<in> fst ` set ps \<Longrightarrow> \<exists>w. lookup ps k = Some w" by (rule lookup_in_keys)
  have c1: "ebind (createApiError_rt (of_data (JObj ps))) (\<lambda>r. Inr (own_keys_rt r)) =
     Inr ({''details'', ''fieldErrors'', ''correlationId''} \<union> fst ` set ps)"
    unfolding b keys by simp
  have c2: "k \<in> fst ` set ps \<longrightarrow>
      ebind (createApiError_rt (of_data (JObj ps))) (\<lambda>r. get_prop_rt r k) =
      get_prop_rt (of_data (JObj ps)) k"
  proof
    assume "k \<in> fst ` set ps"
    then obtain w where "lookup ps k = Some w" using s by blast
    then show "ebind (createApiError_rt (of_data (JObj ps))) (\<lambda>r. get_prop_rt r k) =
      get_prop_rt (of_data (JObj ps)) k"
      unfolding b get_prop_rt_built get_prop_rt_of_object by simp
  qed
  have c3: "k \<in> {''details'', ''fieldErrors'', ''correlationId''} \<longrightarrow> k \<notin> fst ` set ps \<longrightarrow>
      ebind (createApiError_rt (of_data (JObj ps))) (\<lambda>r. get_prop_rt r k) = Inr RUndefined"
    unfolding b get_prop_rt_built using n by auto
  have c4: "ebind (createApiError_rt (of_data (JObj ps))) (\<lambda>r. get_prop_rt r j) =
     get_prop_rt (of_data (JObj ps)) j" if "j \<notin> {''details'', ''fieldErrors'', ''correlationId''}" for j
    unfolding b get_prop_rt_built get_prop_rt_of_object using that by (simp split: option.splits)
  show ?thesis using c1 c2 c3 c4 [of "''code''"] c4 [of "''message''"] by simp
qed

theorem createApiError_defaults_and_overlay_witness:
  "''details'' \<in> fst ` set [(''code'', JStr ''NOT_FOUND''), (''message'', JStr ''x''), (''details'', JNull)] \<and>
   ebind (createApiError_rt (of_data ex_null_details)) (\<lambda>r. get_prop_rt r ''details'') = Inr RNull \<and>
   ''fieldErrors'' \<notin> fst ` set [(''code'', JStr ''NOT_FOUND''), (''message'', JStr ''x''), (''details'', JNull)] \<and>
   ebind (createApiError_rt (of_data ex_null_details)) (\<lambda>r. get_prop_rt r ''fieldErrors'') =
     Inr RUndefined \<and>
   ebind (createApiError_rt (of_data ex_null_details)) (\<lambda>r. get_prop_rt r ''code'') =
     Inr (RStr ''NOT_FOUND'')"
proof -
  have a: "''details'' \<in> fst ` set [(''code'', JStr ''NOT_FOUND''), (''message'', JStr ''x''), (''details'', JNull)]"
    "''fieldErrors'' \<notin> fst ` set [(''code'', JStr ''NOT_FOUND''), (''message'', JStr ''x''), (''details'', JNull)]"
    by simp_all
  have b: "get_prop_rt (of_data ex_null_details) ''details'' = Inr RNull"
    "get_prop_rt (of_data ex_null_details) ''code'' = Inr (RStr ''NOT_FOUND'')"
    by code_simp+
  note t = createApiError_defaults_and_overlay
      [of "[(''code'', JStr ''NOT_FOUND''), (''message'', JStr ''x''), (''details'', JNull)]"]
  show ?thesis
    using a b t [of "''details''"] t [of "''fieldErrors''"]
    unfolding ex_null_details_def by simp
qed

text \<open>
  Claim C5 as stated fails for the message of an argument that holds it as an own
  property that is not enumerable, or inherits it: the caller's message reads as
  \<^verbatim>\<open>'boom'\<close>, the message of the value built as \<^verbatim>\<open>undefined\<close>.
\<close>

theorem createApiError_message_not_copied:
  "get_prop_rt
     (RObj [(''code'', Data (RStr ''NOT_FOUND'') True), (''message'', Data (RStr ''boom'') False)]
           Object_prototype) ''message'' = Inr (RStr ''boom'') \<and>
   ebind (createApiError_rt
            (RObj [(''code'', Data (RStr ''NOT_FOUND'') True),
                   (''message'', Data (RStr ''boom'') False)] Object_prototype))
         (\<lambda>r. get_prop_rt r ''message'') = Inr RUndefined \<and>
   get_prop_rt
     (RObj [(''code'', Data (RStr ''NOT_FOUND'') True)]
           (Object_prototype @ [(''message'', Data (RStr ''boom'') True)])) ''message'' =
     Inr (RStr ''boom'') \<and>
   ebind (createApiError_rt
            (RObj [(''code'', Data (RStr ''NOT_FOUND'') True)]
                  (Object_prototype @ [(''message'', Data (RStr ''boom'') True)])))
         (\<lambda>r. get_prop_rt r ''message'') = Inr RUndefined"
  by code_simp





text \<open>
  Claim C8. On an object whose only fields are a string \<^verbatim>\<open>code\<close> and a string
  \<^verbatim>\<open>message\<close>, \<^verbatim>\<open>isApiError\<close> returns true.
\<close>

theorem isApiError_accepts_code_and_message_only:
  assumes "own_keys (JObj ps) = {''code'', ''message''}"
    and "has_string_field (JObj ps) ''code''" and "has_string_field (JObj ps) ''message''"
  shows "isApiError (JObj ps) = Inr True"
proof -
  have n: "field_of (JObj ps) k = None" if "k \<notin> {''code'', ''message''}" for k
  proof -
    have "k \<notin> fst ` set ps" using that assms(1) by (simp add: own_keys_def)
    then have "lookup ps k = None" by (rule lookup_None)
    then show ?thesis by (simp add: field_of_def)
  qed
  have "details_conform (JObj ps)" by (simp add: details_conform_def n)
  moreover have "fieldErrors_conform (JObj ps)" by (simp add: fieldErrors_conform_def n)
  moreover have "correlationId_conform (JObj ps)" by (simp add: correlationId_conform_def n)
  ultimately show ?thesis using assms(2,3) by (simp add: isApiError_eq ApiError_shape_def)
qed

theorem isApiError_accepts_code_and_message_only_witness:
  "own_keys ex_not_found = {''code'', ''message''} \<and> has_string_field ex_not_found ''code'' \<and>
   has_string_field ex_not_found ''message'' \<and> isApiError ex_not_found = Inr True"
proof -
  have a: "own_keys (JObj [(''code'', JStr ''NOT_FOUND''), (''message'', JStr ''x'')]) =
      {''code'', ''message''}"
    by (simp add: own_keys_def)
  have b: "has_string_field (JObj [(''code'', JStr ''NOT_FOUND''), (''message'', JStr ''x'')]) ''code''"
    by code_simp
  have c: "has_string_field (JObj [(''code'', JStr ''NOT_FOUND''), (''message'', JStr ''x'')]) ''message''"
    by code_simp
  show ?thesis
    using a b c isApiError_accepts_code_and_message_only [OF a b c]
    unfolding ex_not_found_def by simp
qed

text \<open>
  Claim C9, as the code has it. On an object with a string \<^verbatim>\<open>message\<close>, a \<^verbatim>\<open>code\<close> that is
  a string outside \<^verbatim>\<open>ApiErrorCode\<close>, and optional fields that are absent or conform,
  \<^verbatim>\<open>isApiError\<close> returns true: the code is checked only for being a string.
\<close>

theorem isApiError_code_only_a_string:
  assumes "field_of v ''code'' = Some (JStr c)" and "c \<notin> set ApiErrorCode"
    and "has_string_field v ''message''"
    and "details_conform v" and "fieldErrors_conform v" and "correlationId_conform v"
  shows "isApiError v = Inr True"
  using assms by (simp add: isApiError_eq ApiError_shape_def has_string_field_def)

theorem isApiError_code_only_a_string_witness:
  "field_of ex_weird ''code'' = Some (JStr ''WEIRD'') \<and> ''WEIRD'' \<notin> set ApiErrorCode \<and>
   has_string_field ex_weird ''message'' \<and> details_conform ex_weird \<and>
   fieldErrors_conform ex_weird \<and> correlationId_conform ex_weird \<and>
   isApiError ex_weird = Inr True"
proof -
  have a: "field_of ex_weird ''code'' = Some (JStr ''WEIRD'')" by code_simp
  have b: "''WEIRD'' \<notin> set ApiErrorCode" by code_simp
  have c: "has_string_field ex_weird ''message''" by code_simp
  have d: "details_conform ex_weird" by code_simp
  have e: "fieldErrors_conform ex_weird" by code_simp
  have f: "correlationId_conform ex_weird" by code_simp
  show ?thesis using a b c d e f isApiError_code_only_a_string [OF a b c d e f] by simp
qed

text \<open>
  Claim C9 as stated, for every object with such a code and a string message, fails
  when another field does not conform: with a numeric \<^verbatim>\<open>correlationId\<close> the guard
  returns false.
\<close>

theorem isApiError_unlisted_code_rejected_for_other_field:
  "field_of (JObj [(''code'', JStr ''WEIRD''), (''message'', JStr ''x''),
                   (''correlationId'', JNum 42)]) ''code'' = Some (JStr ''WEIRD'') \<and>
   ''WEIRD'' \<notin> set ApiErrorCode \<and>
   has_string_field (JObj [(''code'', JStr ''WEIRD''), (''message'', JStr ''x''),
                           (''correlationId'', JNum 42)]) ''message'' \<and>
   isApiError (JObj [(''code'', JStr ''WEIRD''), (''message'', JStr ''x''),
                     (''correlationId'', JNum 42)]) = Inr False"
  by code_simp

text \<open>
  Claim C10, as the code has it. On an object with a string \<^verbatim>\<open>code\<close>, a string
  \<^verbatim>\<open>message\<close>, \<^verbatim>\<open>details\<close> equal to \<^verbatim>\<open>null\<close>, and \<^verbatim>\<open>fieldErrors\<close> and \<^verbatim>\<open>correlationId\<close>
  absent or conforming, \<^verbatim>\<open>isApiError\<close> returns true: \<^verbatim>\<open>typeof null\<close> is \<^verbatim>\<open>'object'\<close>.
\<close>

theorem isApiError_accepts_null_details:
  assumes "has_string_field v ''code''" and "has_string_field v ''message''"
    and "get_prop v ''details'' = Inr JNull"
    and "fieldErrors_conform v" and "correlationId_conform v"
  shows "isApiError v = Inr True"
proof -
  have "field_of v ''details'' = Some JNull"
    using assms(3) by (intro get_prop_Inr_field_of) (simp_all add: named_keys)
  then have "details_conform v" by (simp add: details_conform_def object_typed_def)
  then show ?thesis using assms by (simp add: isApiError_eq ApiError_shape_def)
qed

theorem isApiError_accepts_null_details_witness:
  "has_string_field ex_null_details ''code'' \<and> has_string_field ex_null_details ''message'' \<and>
   get_prop ex_null_details ''details'' = Inr JNull \<and> fieldErrors_conform ex_null_details \<and>
   correlationId_conform ex_null_details \<and> isApiError ex_null_details = Inr True"
proof -
  have a: "has_string_field ex_null_details ''code''" by code_simp
  have b: "has_string_field ex_null_details ''message''" by code_simp
  have c: "get_prop ex_null_details ''details'' = Inr JNull" by code_simp
  have d: "fieldErrors_conform ex_null_details" by code_simp
  have e: "correlationId_conform ex_null_details" by code_simp
  show ?thesis using a b c d e isApiError_accepts_null_details [OF a b c d e] by simp
qed

text \<open>
  Claim C10 as stated, for every object with such a code, message and details, fails
  when another field does not conform: with a numeric \<^verbatim>\<open>correlationId\<close> the guard
  returns false.
\<close>

theorem isApiError_null_details_rejected_for_other_field:
  "has_string_field (JObj [(''code'', JStr ''NOT_FOUND''), (''message'', JStr ''x''),
                           (''details'', JNull), (''correlationId'', JNum 42)]) ''code'' \<and>
   has_string_field (JObj [(''code'', JStr ''NOT_FOUND''), (''message'', JStr ''x''),
                           (''details'', JNull), (''correlationId'', JNum 42)]) ''message'' \<and>
   get_prop (JObj [(''code'', JStr ''NOT_FOUND''), (''message'', JStr ''x''),
                   (''details'', JNull), (''correlationId'', JNum 42)]) ''details'' = Inr JNull \<and>
   isApiError (JObj [(''code'', JStr ''NOT_FOUND''), (''message'', JStr ''x''),
                     (''details'', JNull), (''correlationId'', JNum 42)]) = Inr False"
  by code_simp

end
